theory Spec2Isabelle
  imports Complex_Main "HOL-Library.Char_ord" "HOL-Library.List_Lexorder"
begin

section \<open>Values and tables\<close>

text \<open>
  The values of a float64 column: a finite number, one of the two infinities, or the
  missing marker NaN. Finite arithmetic is exact (rationals); the rounding and the
  overflow of IEEE doubles are not part of the model. The special values follow IEEE:
  NaN is absorbing, an infinity absorbs every finite number, and the two infinities
  add up to NaN.
\<close>

datatype fval = Fin rat | PInf | NInf | NaN

fun fadd :: "fval \<Rightarrow> fval \<Rightarrow> fval" where
  "fadd NaN y = NaN"
| "fadd x NaN = NaN"
| "fadd PInf NInf = NaN"
| "fadd NInf PInf = NaN"
| "fadd PInf y = PInf"
| "fadd x PInf = PInf"
| "fadd NInf y = NInf"
| "fadd x NInf = NInf"
| "fadd (Fin a) (Fin b) = Fin (a + b)"

text \<open>Division of a sum by a positive count.\<close>

fun fdiv_count :: "fval \<Rightarrow> nat \<Rightarrow> fval" where
  "fdiv_count (Fin a) n = Fin (a / of_nat n)"
| "fdiv_count x n = x"

fun isna :: "fval \<Rightarrow> bool" where
  "isna NaN = True"
| "isna x = False"

fun isinf :: "fval \<Rightarrow> bool" where
  "isinf PInf = True"
| "isinf NInf = True"
| "isinf x = False"

fun isfinite :: "fval \<Rightarrow> bool" where
  "isfinite (Fin a) = True"
| "isfinite x = False"

datatype error = KeyError | TypeError | ValueError | AttributeError | LibraryError

text \<open>
  A calendar date as \<open>pd.to_datetime\<close> yields it (the time of day plays no role in
  the script).
\<close>

record date =
  year :: int
  month :: int
  day :: int

text \<open>
  A column of a DataFrame, by storage type: numbers (int64 and float64, NaN for a
  missing value), objects (strings, \<open>None\<close> for a missing value) and dates
  (\<open>None\<close> is NaT).
\<close>

datatype column =
    NumCol "fval list"
  | ObjCol "string option list"
  | DateCol "date option list"

fun col_length :: "column \<Rightarrow> nat" where
  "col_length (NumCol vs) = length vs"
| "col_length (ObjCol vs) = length vs"
| "col_length (DateCol vs) = length vs"

text \<open>The rows of a column at the given positions, in that order.\<close>

fun take_rows :: "nat list \<Rightarrow> column \<Rightarrow> column" where
  "take_rows ps (NumCol vs) = NumCol (map (\<lambda>p. vs ! p) ps)"
| "take_rows ps (ObjCol vs) = ObjCol (map (\<lambda>p. vs ! p) ps)"
| "take_rows ps (DateCol vs) = DateCol (map (\<lambda>p. vs ! p) ps)"

text \<open>
  A DataFrame: the row labels (its index) and the named columns, in order. A Series of
  numbers is the list of its (label, value) pairs.
\<close>

record frame =
  index :: "nat list"
  columns :: "(string \<times> column) list"

type_synonym series = "(nat \<times> fval) list"

definition wf_frame :: "frame \<Rightarrow> bool" where
  "wf_frame df \<longleftrightarrow>
     distinct (map fst (columns df)) \<and>
     list_all (\<lambda>(name, c). col_length c = length (index df)) (columns df)"

text \<open>
  \<open>pd.read_csv\<close> yields a frame whose index is \<open>0, 1, ..., n - 1\<close>.
\<close>

definition range_index :: "frame \<Rightarrow> bool" where
  "range_index df \<longleftrightarrow> index df = [0..<length (index df)]"

text \<open>
  \<open>train.sample(frac=1.0, random_state=42)\<close> returns every row once, in the order
  \<open>perm\<close> chosen by the generator; each row keeps its label.
\<close>

definition sample :: "nat list \<Rightarrow> frame \<Rightarrow> frame" where
  "sample perm df =
     \<lparr>index = map (\<lambda>p. index df ! p) perm,
      columns = map (\<lambda>(name, c). (name, take_rows perm c)) (columns df)\<rparr>"

definition is_permutation :: "nat list \<Rightarrow> nat \<Rightarrow> bool" where
  "is_permutation perm n \<longleftrightarrow> length perm = n \<and> list_all (\<lambda>i. i \<in> set perm) [0..<n]"

section \<open>Target cleaning\<close>

definition target_name :: string where
  "target_name = ''Degerlendirme Puani''"

text \<open>
  \<open>y.mean()\<close> skips the missing values only: the values are summed with every NaN
  taken as zero and the sum is divided by the number of values that are not NaN; the
  mean of no value is NaN. An infinity is not a missing value and enters the sum.
\<close>

definition nansum :: "fval list \<Rightarrow> fval" where
  "nansum vs = foldl fadd (Fin 0) (map (\<lambda>v. if isna v then Fin 0 else v) vs)"

definition mean :: "series \<Rightarrow> fval" where
  "mean y =
     (let vs = map snd y; count = length (filter (\<lambda>v. \<not> isna v) vs)
      in if count = 0 then NaN else fdiv_count (nansum vs) count)"

definition fillna :: "fval \<Rightarrow> series \<Rightarrow> series" where
  "fillna v y = map (\<lambda>(l, x). (l, if isna x then v else x)) y"

text \<open>\<open>y.replace([np.inf, -np.inf], np.nan)\<close>\<close>

definition replace_inf :: "series \<Rightarrow> series" where
  "replace_inf y = map (\<lambda>(l, x). (l, if x = PInf \<or> x = NInf then NaN else x)) y"

definition dropna :: "series \<Rightarrow> series" where
  "dropna y = filter (\<lambda>(l, x). \<not> isna x) y"

definition clean_target :: "series \<Rightarrow> series" where
  "clean_target y = dropna (replace_inf (fillna (mean y) y))"

text \<open>\<open>df.drop(names, axis=1)\<close>: every name must be a column.\<close>

definition drop_columns :: "string list \<Rightarrow> frame \<Rightarrow> error + frame" where
  "drop_columns names df =
     (if list_all (\<lambda>n. n \<in> set (map fst (columns df))) names
      then Inr (df\<lparr>columns := filter (\<lambda>(n, c). n \<notin> set names) (columns df)\<rparr>)
      else Inl KeyError)"

text \<open>
  \<open>df.loc[labels]\<close>: for each label in turn the rows that carry it; a label that
  no row carries raises.
\<close>

definition positions_of :: "nat list \<Rightarrow> nat \<Rightarrow> nat list" where
  "positions_of idx l = filter (\<lambda>p. idx ! p = l) [0..<length idx]"

definition loc :: "frame \<Rightarrow> nat list \<Rightarrow> error + frame" where
  "loc df labels =
     (if list_all (\<lambda>l. l \<in> set (index df)) labels
      then (let ps = concat (map (positions_of (index df)) labels)
            in Inr \<lparr>index = map (\<lambda>p. index df ! p) ps,
                    columns = map (\<lambda>(name, c). (name, take_rows ps c)) (columns df)\<rparr>)
      else Inl KeyError)"

text \<open>
  Lines 27 to 31: the target column is read, cleaned, and the feature table is cut
  down to the labels that survive. A target column that does not hold numbers has no
  mean.
\<close>

definition target_cleaning :: "frame \<Rightarrow> error + (series \<times> frame)" where
  "target_cleaning train =
     (case map_of (columns train) target_name of
        None \<Rightarrow> Inl KeyError
      | Some (NumCol vs) \<Rightarrow>
          (let y = clean_target (zip (index train) vs)
           in case drop_columns [target_name, ''id''] train of
                Inl e \<Rightarrow> Inl e
              | Inr X \<Rightarrow>
                  (case loc X (map fst y) of
                     Inl e \<Rightarrow> Inl e
                   | Inr X' \<Rightarrow> Inr (y, X')))
      | Some c \<Rightarrow> Inl TypeError)"

section \<open>Date columns\<close>

definition bind_err :: "error + 'a \<Rightarrow> ('a \<Rightarrow> error + 'b) \<Rightarrow> error + 'b" where
  "bind_err r f = (case r of Inl e \<Rightarrow> Inl e | Inr x \<Rightarrow> f x)"

text \<open>\<open>df[name]\<close>\<close>

definition getitem :: "frame \<Rightarrow> string \<Rightarrow> error + column" where
  "getitem df name =
     (case map_of (columns df) name of None \<Rightarrow> Inl KeyError | Some c \<Rightarrow> Inr c)"

text \<open>
  Assignment to a key of a dict, and to a column of a frame alike: an existing key keeps
  its place and takes the new value, a new key goes to the end.
\<close>

definition assign :: "'k \<Rightarrow> 'v \<Rightarrow> ('k \<times> 'v) list \<Rightarrow> ('k \<times> 'v) list" where
  "assign k v kvs =
     (if k \<in> set (map fst kvs)
      then map (\<lambda>(k', v'). if k' = k then (k', v) else (k', v')) kvs
      else kvs @ [(k, v)])"

definition setitem :: "string \<Rightarrow> column \<Rightarrow> frame \<Rightarrow> frame" where
  "setitem name c df = df\<lparr>columns := assign name c (columns df)\<rparr>"

text \<open>
  \<open>pd.to_datetime(column, errors='coerce')\<close>. What the library reads as a date is
  a parameter: \<open>parse c i\<close> is the date it finds at position \<open>i\<close> of column
  \<open>c\<close>, or \<open>None\<close> where it finds none (the format may be guessed from the whole
  column). A missing value is never a date, and a column of dates is returned as it is.
\<close>

type_synonym date_parser = "column \<Rightarrow> nat \<Rightarrow> date option"

fun to_datetime :: "date_parser \<Rightarrow> column \<Rightarrow> column" where
  "to_datetime parse (DateCol ds) = DateCol ds"
| "to_datetime parse (ObjCol vs) =
     DateCol (map (\<lambda>i. case vs ! i of None \<Rightarrow> None | Some s \<Rightarrow> parse (ObjCol vs) i)
                  [0..<length vs])"
| "to_datetime parse (NumCol vs) =
     DateCol (map (\<lambda>i. if isna (vs ! i) then None else parse (NumCol vs) i)
                  [0..<length vs])"

text \<open>
  The day of the week, Monday being 0: the day count of the proleptic Gregorian
  calendar, month table and all.
\<close>

definition weekday_of :: "date \<Rightarrow> int" where
  "weekday_of d =
     (let t = [0, 3, 2, 5, 0, 3, 5, 1, 4, 6, 2, 4 :: int];
          y = (if month d < 3 then year d - 1 else year d);
          sunday0 = (y + y div 4 - y div 100 + y div 400
                       + t ! nat ((month d - 1) mod 12) + day d) mod 7
      in (sunday0 + 6) mod 7)"

text \<open>
  The \<open>.dt\<close> accessor exists on a column of dates only. A field of NaT is NaN.
\<close>

definition dt_field :: "(date \<Rightarrow> int) \<Rightarrow> column \<Rightarrow> error + column" where
  "dt_field f c =
     (case c of
        DateCol ds \<Rightarrow>
          Inr (NumCol (map (\<lambda>d. case d of None \<Rightarrow> NaN | Some x \<Rightarrow> Fin (of_int (f x))) ds))
      | _ \<Rightarrow> Inl AttributeError)"

text \<open>The body of the loop of lines 35 to 41, for one column and one table.\<close>

definition decompose_date :: "date_parser \<Rightarrow> string \<Rightarrow> frame \<Rightarrow> error + frame" where
  "decompose_date parse col df =
     bind_err (getitem df col) (\<lambda>c.
     let df1 = setitem col (to_datetime parse c) df in
     bind_err (bind_err (getitem df1 col) (dt_field year)) (\<lambda>ys.
     let df2 = setitem (col @ ''_year'') ys df1 in
     bind_err (bind_err (getitem df2 col) (dt_field month)) (\<lambda>ms.
     let df3 = setitem (col @ ''_month'') ms df2 in
     bind_err (bind_err (getitem df3 col) (dt_field weekday_of)) (\<lambda>ws.
     let df4 = setitem (col @ ''_weekday'') ws df3 in
     drop_columns [col] df4))))"

definition date_columns :: "string list" where
  "date_columns = [''Dogum Tarihi'']"

fun date_loop :: "date_parser \<Rightarrow> string list \<Rightarrow> frame \<times> frame \<Rightarrow> error + frame \<times> frame" where
  "date_loop parse [] (X, test) = Inr (X, test)"
| "date_loop parse (col # cols) (X, test) =
     bind_err (decompose_date parse col X) (\<lambda>X'.
     bind_err (decompose_date parse col test) (\<lambda>test'.
     date_loop parse cols (X', test')))"

section \<open>The catalog of models and the selection\<close>

text \<open>
  The regressors as the script constructs them; the argument is \<open>random_state\<close>.
  The support-vector regressor is constructed with no argument.
\<close>

datatype regressor =
    XGBRegressor nat
  | RandomForestRegressor nat
  | GradientBoostingRegressor nat
  | SVR
  | CatBoostRegressor nat

definition models :: "(string \<times> (string \<times> regressor)) list" where
  "models =
     [(''1'', (''XGBoost'', XGBRegressor 42)),
      (''2'', (''Random Forest'', RandomForestRegressor 42)),
      (''3'', (''Gradient Boosting'', GradientBoostingRegressor 42)),
      (''4'', (''SVR'', SVR)),
      (''5'', (''CatBoost'', CatBoostRegressor 42))]"

text \<open>
  Strings are sequences of bytes (UTF-8). \<open>str.lower\<close> maps the letters A to Z to
  a to z; it changes other letters too, but none of them to an ASCII letter, so the
  comparison with \<open>''all''\<close> is the one of the script.
\<close>

definition lower_char :: "char \<Rightarrow> char" where
  "lower_char c =
     (case map_of (zip ''ABCDEFGHIJKLMNOPQRSTUVWXYZ'' ''abcdefghijklmnopqrstuvwxyz'') c of
        None \<Rightarrow> c
      | Some l \<Rightarrow> l)"

definition lower :: "string \<Rightarrow> string" where
  "lower s = map lower_char s"

text \<open>\<open>s.split(sep)\<close> for a separator of one character.\<close>

fun split :: "char \<Rightarrow> string \<Rightarrow> string list" where
  "split sep [] = [[]]"
| "split sep (c # cs) =
     (if c = sep then [] # split sep cs
      else (case split sep cs of [] \<Rightarrow> [[c]] | t # ts \<Rightarrow> (c # t) # ts))"

definition selected_models :: "string \<Rightarrow> string list" where
  "selected_models inp =
     (if lower inp = ''all'' then map fst models else split CHR '','' inp)"

section \<open>Parameter grids\<close>

datatype pval = PInt int | PFloat rat | PStr string

type_synonym params = "(string \<times> pval) list"

type_synonym param_grid = "(string \<times> pval list) list"

definition param_distributions :: "string \<Rightarrow> param_grid" where
  "param_distributions model_name =
     (let pd = [(''regressor__n_estimators'', [PInt 100, PInt 200, PInt 300]),
                (''regressor__max_depth'', [PInt 3, PInt 5, PInt 7])]
      in if model_name = ''XGBoost''
         then assign ''regressor__learning_rate''
                [PFloat (1 / 100), PFloat (1 / 10), PFloat (2 / 10)] pd
         else if model_name = ''Gradient Boosting''
         then assign ''regressor__learning_rate''
                [PFloat (1 / 100), PFloat (1 / 10), PFloat (2 / 10)] pd
         else if model_name = ''SVR''
         then [(''regressor__C'', [PFloat (1 / 10), PInt 1, PInt 10]),
               (''regressor__kernel'', [PStr ''rbf'', PStr ''linear'', PStr ''poly'']),
               (''regressor__gamma'',
                  [PStr ''scale'', PStr ''auto''] @ [PFloat (1 / 10), PInt 1, PInt 10])]
         else if model_name = ''CatBoost''
         then [(''regressor__learning_rate'',
                  [PFloat (1 / 100), PFloat (1 / 10), PFloat (2 / 10)]),
               (''regressor__depth'', [PInt 3, PInt 5, PInt 7]),
               (''regressor__l2_leaf_reg'', [PInt 1, PInt 3, PInt 5])]
         else pd)"

section \<open>Randomized search\<close>

text \<open>
  A generator of random numbers is the stream of its raw draws; a consumer reads the
  stream from a position on. Sampling \<open>n\<close> items without replacement removes, for
  each draw, the item the draw points at from what is left of the pool: the result is
  always \<open>n\<close> different items of the pool (all of them when the pool is smaller), and
  which ones, and in which order, is the stream's choice.
\<close>

type_synonym rng_stream = "nat \<Rightarrow> nat"

fun sample_without_replacement :: "rng_stream \<Rightarrow> nat \<Rightarrow> 'a list \<Rightarrow> nat \<Rightarrow> 'a list" where
  "sample_without_replacement draws pos pool 0 = []"
| "sample_without_replacement draws pos [] (Suc n) = []"
| "sample_without_replacement draws pos (x # xs) (Suc n) =
     (let pool = x # xs; i = draws pos mod length pool
      in pool ! i #
         sample_without_replacement draws (Suc pos) (take i pool @ drop (Suc i) pool) n)"

text \<open>
  The points of a grid, as \<open>ParameterGrid\<close> enumerates them: the keys sorted, the
  last key changing fastest.
\<close>

fun product_grid :: "param_grid \<Rightarrow> params list" where
  "product_grid [] = [[]]"
| "product_grid ((k, vs) # rest) =
     concat (map (\<lambda>v. map (\<lambda>p. (k, v) # p) (product_grid rest)) vs)"

definition ParameterGrid :: "param_grid \<Rightarrow> params list" where
  "ParameterGrid grid = product_grid (sort_key fst grid)"

text \<open>
  What the fitting library does on the data of this run is a parameter:
  \<^item> \<open>mean_test_score r p\<close>: the mean over the five folds of the negated mean
    squared error of the pipeline of regressor \<open>r\<close> with parameters \<open>p\<close>, on the
    training split;
  \<^item> \<open>refit r p\<close>: that pipeline fitted on the whole training split;
  \<^item> \<open>validation_mse e\<close>: the mean squared error of \<open>e\<close> on the validation split;
  \<^item> \<open>seeded_stream s\<close>: the stream of a generator seeded with \<open>s\<close>;
  \<^item> \<open>stacking_fit\<close>, \<open>stacking_validation_mse\<close>, \<open>stacking_predict\<close>: the
    same for the stacked ensemble, fitted on its base learners.
  Each of them returns its value or the exception the library raises.
\<close>

record ('e, 's) library =
  mean_test_score :: "regressor \<Rightarrow> params \<Rightarrow> error + rat"
  refit :: "regressor \<Rightarrow> params \<Rightarrow> error + 'e"
  validation_mse :: "'e \<Rightarrow> error + rat"
  seeded_stream :: "nat \<Rightarrow> rng_stream"
  stacking_fit :: "(string \<times> 'e) list \<Rightarrow> error + 's"
  stacking_validation_mse :: "'s \<Rightarrow> error + rat"
  stacking_predict :: "'s \<Rightarrow> frame \<Rightarrow> error + fval list"

fun score_all ::
  "('e, 's) library \<Rightarrow> regressor \<Rightarrow> params list \<Rightarrow> error + (params \<times> rat) list" where
  "score_all L r [] = Inr []"
| "score_all L r (p # ps) =
     bind_err (mean_test_score L r p) (\<lambda>s.
     bind_err (score_all L r ps) (\<lambda>rest. Inr ((p, s) # rest)))"

text \<open>The candidate of rank 1; among equal scores the earliest one.\<close>

fun best_of :: "(params \<times> rat) list \<Rightarrow> (params \<times> rat) option" where
  "best_of [] = None"
| "best_of (c # cs) =
     (case best_of cs of
        None \<Rightarrow> Some c
      | Some b \<Rightarrow> if snd c < snd b then Some b else Some c)"

record 'e search_result =
  best_params :: params
  best_score :: rat
  best_estimator :: 'e

text \<open>
  \<open>RandomizedSearchCV(...).fit\<close> on a grid of lists: \<open>n_iter\<close> points of the
  grid (all of them when the grid is smaller) are sampled without replacement, each is
  scored by cross-validation, and the best one is refitted. With
  \<open>random_state=None\<close> the sample is drawn from the global generator of the process,
  which is read from \<open>pos\<close> on and advanced; with a seed it is drawn from a generator
  of its own. The result comes with the new position of the global generator.
\<close>

definition RandomizedSearchCV_fit ::
  "('e, 's) library \<Rightarrow> rng_stream \<Rightarrow> nat \<Rightarrow> regressor \<Rightarrow> param_grid \<Rightarrow> nat \<Rightarrow> nat option
     \<Rightarrow> error + ('e search_result \<times> nat)" where
  "RandomizedSearchCV_fit L global pos r grid n_iter random_state =
     (let points = ParameterGrid grid;
          n = min n_iter (length points);
          candidates =
            (case random_state of
               None \<Rightarrow> sample_without_replacement global pos points n
             | Some seed \<Rightarrow> sample_without_replacement (seeded_stream L seed) 0 points n);
          pos' = (case random_state of None \<Rightarrow> pos + n | Some seed \<Rightarrow> pos)
      in bind_err (score_all L r candidates) (\<lambda>scored.
         case best_of scored of
           None \<Rightarrow> Inl ValueError
         | Some (p, s) \<Rightarrow>
             bind_err (refit L r p) (\<lambda>est.
             Inr (\<lparr>best_params = p, best_score = s, best_estimator = est\<rparr>, pos'))))"

section \<open>The loop over the selected models\<close>

text \<open>
  A printed line is a sequence of pieces: text of the script, and values of the run
  (a parameter setting, the square root of a number, the seconds elapsed).
\<close>

datatype piece = Txt string | Params params | Sqrt rat | Elapsed

type_synonym line = "piece list"

record 'e loop_state =
  console :: "line list"
  base_models :: "(string \<times> 'e) list"
  rng_pos :: nat

definition print_line :: "line \<Rightarrow> 'e loop_state \<Rightarrow> 'e loop_state" where
  "print_line l st = st\<lparr>console := console st @ [l]\<rparr>"

definition invalid_line :: "string \<Rightarrow> line" where
  "invalid_line model_num = [Txt (''Invalid model number: '' @ model_num @ '', skipping.'')]"

definition model_line :: "string \<Rightarrow> line" where
  "model_line model_name = [Txt (CHR 0x0A # ''Model: '' @ model_name)]"

text \<open>
  Lines 101 to 174, the body of the loop for a model of the catalog: the search, the
  report and the validation error; the best estimator is appended to
  \<open>base_models\<close> whatever its validation error. An exception of the library ends the
  run: the result is then the exception and the state reached when it was raised.
\<close>

definition tune_model ::
  "('e, 's) library \<Rightarrow> rng_stream \<Rightarrow> string \<Rightarrow> regressor \<Rightarrow> 'e loop_state
     \<Rightarrow> error option \<times> 'e loop_state" where
  "tune_model L global model_name regressor st =
     (let grid = param_distributions model_name;
          st1 = print_line (model_line model_name) st
      in case RandomizedSearchCV_fit L global (rng_pos st1) regressor grid 10 None of
           Inl e \<Rightarrow> (Some e, st1)
         | Inr (random_search, pos') \<Rightarrow>
             (let st2 = print_line [Txt ''Training time: '', Elapsed, Txt '' seconds'']
                         (print_line [Txt ''Best cross-validation score (RMSE):'',
                                      Txt '' '', Sqrt (- best_score random_search)]
                         (print_line [Txt ''Best parameters:'', Txt '' '',
                                      Params (best_params random_search)]
                         (st1\<lparr>rng_pos := pos'\<rparr>)))
              in case validation_mse L (best_estimator random_search) of
                   Inl e \<Rightarrow> (Some e, st2)
                 | Inr mse \<Rightarrow>
                     (let st3 = print_line [Txt ''Validation RMSE: '', Sqrt mse] st2
                      in (None,
                          st3\<lparr>base_models :=
                                 base_models st3
                                   @ [(model_name, best_estimator random_search)]\<rparr>))))"

text \<open>
  Lines 95 to 174: the loop over the tokens of the selection. A token that is not a key
  of the catalog is reported and the loop goes on with the next one.
\<close>

fun selection_loop ::
  "('e, 's) library \<Rightarrow> rng_stream \<Rightarrow> string list \<Rightarrow> 'e loop_state
     \<Rightarrow> error option \<times> 'e loop_state" where
  "selection_loop L global [] st = (None, st)"
| "selection_loop L global (model_num # rest) st =
     (case map_of models model_num of
        None \<Rightarrow> selection_loop L global rest (print_line (invalid_line model_num) st)
      | Some (model_name, regressor) \<Rightarrow>
          (case tune_model L global model_name regressor st of
             (Some e, st') \<Rightarrow> (Some e, st')
           | (None, st') \<Rightarrow> selection_loop L global rest st'))"

section \<open>Stacking and the submission file\<close>

text \<open>
  \<open>StackingRegressor(estimators=..., ...).fit\<close> validates its base learners before
  it fits anything: there must be at least one, and their names must differ.
\<close>

definition StackingRegressor_fit ::
  "('e, 's) library \<Rightarrow> (string \<times> 'e) list \<Rightarrow> error + 's" where
  "StackingRegressor_fit L estimators =
     (if estimators = [] then Inl ValueError
      else if \<not> distinct (map fst estimators) then Inl ValueError
      else stacking_fit L estimators)"

record submission =
  id_column :: column
  prediction_column :: "fval list"

record run_result =
  out_lines :: "line list"
  raised :: "error option"
  submission_file :: "submission option"

definition failed :: "line list \<Rightarrow> error \<Rightarrow> run_result" where
  "failed out e = \<lparr>out_lines = out, raised = Some e, submission_file = None\<rparr>"

text \<open>Lines 177 to 205.\<close>

definition stacking_stage ::
  "('e, 's) library \<Rightarrow> frame \<Rightarrow> 'e loop_state \<Rightarrow> run_result" where
  "stacking_stage L test st =
     (case StackingRegressor_fit L (base_models st) of
        Inl e \<Rightarrow> failed (console st) e
      | Inr stacking_regressor \<Rightarrow>
          (let out1 = console st
                 @ [[Txt (CHR 0x0A # ''Stacking Regressor Training time: ''), Elapsed,
                     Txt '' seconds'']]
           in case stacking_validation_mse L stacking_regressor of
                Inl e \<Rightarrow> failed out1 e
              | Inr mse \<Rightarrow>
                  (let out2 = out1 @ [[Txt ''Stacking Regressor Validation RMSE: '', Sqrt mse]]
                   in case bind_err (drop_columns [''id''] test)
                             (stacking_predict L stacking_regressor) of
                        Inl e \<Rightarrow> failed out2 e
                      | Inr test_predictions \<Rightarrow>
                          (case getitem test ''id'' of
                             Inl e \<Rightarrow> failed out2 e
                           | Inr ids \<Rightarrow>
                               if length test_predictions \<noteq> col_length ids
                               then failed out2 ValueError
                               else \<lparr>out_lines = out2
                                        @ [[Txt ''Stacking Regressor predictions saved.'']],
                                     raised = None,
                                     submission_file =
                                       Some \<lparr>id_column = ids,
                                             prediction_column = test_predictions\<rparr>\<rparr>))))"

definition prompt :: string where
  "prompt = ''Please enter the numbers of the models you want to use, separated by commas (or type 'all'): ''"

text \<open>
  Lines 83 to 87 and 95: the menu and the prompt are printed, no model is retained yet,
  and the global generator has not been read.
\<close>

definition menu_lines :: "line list" where
  "menu_lines =
     [Txt ''Available Models:'']
       # map (\<lambda>(key, value). [Txt (key @ '': '' @ fst value)]) models
       @ [[Txt prompt]]"

definition menu_state :: "'e loop_state" where
  "menu_state = \<lparr>console = menu_lines, base_models = [], rng_pos = 0\<rparr>"

text \<open>
  Lines 82 to 205: the menu, the selection read from the user, the loop and the
  stacking. Nothing seeds the global generator: \<open>global\<close> is whatever stream the
  process started with.
\<close>

definition model_stage ::
  "('e, 's) library \<Rightarrow> rng_stream \<Rightarrow> frame \<Rightarrow> string \<Rightarrow> run_result" where
  "model_stage L global test inp =
     (case selection_loop L global (selected_models inp) menu_state of
        (Some e, st) \<Rightarrow> failed (console st) e
      | (None, st) \<Rightarrow> stacking_stage L test st)"

section \<open>Example inputs\<close>


definition train_1000 :: frame where
  "train_1000 =
     \<lparr>index = [0..<1000],
      columns = [(''id'', NumCol (map (\<lambda>i. Fin (of_nat i)) [0..<1000])),
                 (''Degerlendirme Puani'', NumCol (NaN # PInf # replicate 998 (Fin 5)))]\<rparr>"

definition raw_example :: frame where
  "raw_example =
     \<lparr>index = [0, 1, 2, 3],
      columns = [(''id'', NumCol [Fin 10, Fin 11, Fin 12, Fin 13]),
                 (''Sehir'', ObjCol [Some ''Ankara'', None, Some ''Izmir'', Some ''Bursa'']),
                 (''Degerlendirme Puani'', NumCol [Fin 40, NaN, PInf, Fin 60])]\<rparr>"

definition X_example :: frame where
  "X_example =
     \<lparr>index = [0, 3], columns = [(''Sehir'', ObjCol [Some ''Ankara'', Some ''Bursa''])]\<rparr>"

text \<open>
  A library behaviour for the examples: the score of a parameter setting grows with its
  learning rate, an estimator is represented by the parameters it was fitted with, and
  nothing raises.
\<close>

definition demo_library :: "(params, unit) library" where
  "demo_library =
     \<lparr>mean_test_score =
        (\<lambda>r p. case map_of p ''regressor__learning_rate'' of
                  Some (PFloat x) \<Rightarrow> Inr (x - 1)
                | _ \<Rightarrow> Inr (- 1)),
      refit = (\<lambda>r p. Inr p),
      validation_mse = (\<lambda>e. Inr 1),
      seeded_stream = (\<lambda>seed i. seed + i),
      stacking_fit = (\<lambda>estimators. Inr ()),
      stacking_validation_mse = (\<lambda>s. Inr 1),
      stacking_predict = (\<lambda>s df. Inr (replicate (length (index df)) (Fin 0)))\<rparr>"

definition test_example :: frame where
  "test_example =
     \<lparr>index = [0, 1],
      columns = [(''id'', NumCol [Fin 100, Fin 101]),
                 (''Sehir'', ObjCol [Some ''Ankara'', Some ''Izmir'']),
                 (''Dogum Tarihi'', ObjCol [Some ''1990-05-17'', Some ''yok''])]\<rparr>"

text \<open>
  A reading of dates for the examples: \<open>1990-05-17\<close> is a date, nothing else is.
\<close>

definition demo_parse :: date_parser where
  "demo_parse c i =
     (case c of
        ObjCol vs \<Rightarrow>
          (if vs ! i = Some ''1990-05-17'' then Some \<lparr>year = 1990, month = 5, day = 17\<rparr>
           else None)
      | _ \<Rightarrow> None)"

definition empty_state :: "'e loop_state" where
  "empty_state = \<lparr>console = [], base_models = [], rng_pos = 0\<rparr>"

section \<open>Properties of target cleaning\<close>

lemma foldl_fadd_not_finite:
  "\<not> isfinite acc \<Longrightarrow> \<not> isfinite (foldl fadd acc xs)"
proof (induction xs arbitrary: acc)
  case Nil then show ?case by simp
next
  case (Cons x xs)
  have "\<not> isfinite (fadd acc x)" using Cons.prems by (cases acc; cases x) simp_all
  then show ?case using Cons.IH by simp
qed

lemma foldl_fadd_inf:
  "\<exists>x\<in>set xs. \<not> isfinite x \<Longrightarrow> \<not> isfinite (foldl fadd acc xs)"
proof (induction xs arbitrary: acc)
  case Nil then show ?case by simp
next
  case (Cons x xs)
  show ?case
  proof (cases "isfinite x")
    case True
    then show ?thesis using Cons by simp
  next
    case False
    then have "\<not> isfinite (fadd acc x)" by (cases acc; cases x) simp_all
    then show ?thesis by (simp add: foldl_fadd_not_finite)
  qed
qed

lemma nansum_inf: "\<exists>v\<in>set vs. isinf v \<Longrightarrow> \<not> isfinite (nansum vs)"
proof -
  assume "\<exists>v\<in>set vs. isinf v"
  then obtain v where v: "v \<in> set vs" "isinf v" by blast
  have "(if isna v then Fin 0 else v) = v" using v(2) by (cases v) simp_all
  then have "v \<in> set (map (\<lambda>v. if isna v then Fin 0 else v) vs)" using v(1) by force
  moreover have "\<not> isfinite v" using v(2) by (cases v) simp_all
  ultimately show ?thesis unfolding nansum_def by (intro foldl_fadd_inf) blast
qed

lemma fdiv_count_not_finite: "\<not> isfinite s \<Longrightarrow> \<not> isfinite (fdiv_count s n)"
  by (cases s) simp_all

lemma mean_inf:
  assumes "\<exists>v\<in>set (map snd y). isinf v"
  shows "\<not> isfinite (mean y)"
proof -
  have "\<not> isfinite (nansum (map snd y))" using assms by (rule nansum_inf)
  then show ?thesis by (simp add: mean_def Let_def fdiv_count_not_finite)
qed

lemma dropna_replace_inf:
  "dropna (replace_inf z) = filter (\<lambda>(l, x). isfinite x) z"
proof (induction z)
  case Nil
  show ?case by (simp add: dropna_def replace_inf_def)
next
  case (Cons r z)
  obtain l x where r: "r = (l, x)" by (cases r)
  from Cons show ?case unfolding r by (cases x) (simp_all add: dropna_def replace_inf_def)
qed

lemma clean_target_filter:
  "clean_target y = filter (\<lambda>(l, x). isfinite x) (fillna (mean y) y)"
  by (simp add: clean_target_def dropna_replace_inf)

lemma fval_partition:
  "length (filter isfinite vs) + length (filter isna vs) + length (filter isinf vs) = length vs"
proof (induction vs)
  case Nil show ?case by simp
next
  case (Cons v vs) then show ?case by (cases v) simp_all
qed

lemma fillna_count_not_finite:
  "\<not> isfinite m \<Longrightarrow>
   length (filter (\<lambda>(l, x). isfinite x) (fillna m y)) = length (filter isfinite (map snd y))"
proof (induction y)
  case Nil show ?case by (simp add: fillna_def)
next
  case (Cons r y)
  obtain l x where r: "r = (l, x)" by (cases r)
  from Cons show ?case unfolding r by (cases x) (simp_all add: fillna_def)
qed

lemma fillna_count_finite:
  "isfinite m \<Longrightarrow>
   length (filter (\<lambda>(l, x). isfinite x) (fillna m y))
     = length (filter (\<lambda>v. \<not> isinf v) (map snd y))"
proof (induction y)
  case Nil show ?case by (simp add: fillna_def)
next
  case (Cons r y)
  obtain l x where r: "r = (l, x)" by (cases r)
  from Cons show ?case unfolding r by (cases x) (simp_all add: fillna_def)
qed

lemma fillna_keeps_labels: "map fst (fillna m y) = map fst y"
  by (induction y) (auto simp: fillna_def)

lemma clean_target_labels: "set (map fst (clean_target y)) \<subseteq> set (map fst y)"
proof -
  have "set (map fst (clean_target y)) \<subseteq> set (map fst (fillna (mean y) y))"
    unfolding clean_target_filter by auto
  then show ?thesis by (simp only: fillna_keeps_labels)
qed

lemma labels_at_positions:
  "map (\<lambda>p. idx ! p) (positions_of idx l) = filter (\<lambda>x. x = l) idx"
proof -
  have "map (\<lambda>p. idx ! p) (filter (\<lambda>p. idx ! p = l) [0..<length idx])
          = filter (\<lambda>x. x = l) (map (\<lambda>p. idx ! p) [0..<length idx])"
    by (simp add: filter_map comp_def)
  then show ?thesis by (simp add: positions_of_def map_nth)
qed

lemma distinct_filter_eq:
  "distinct idx \<Longrightarrow> l \<in> set idx \<Longrightarrow> filter (\<lambda>x. x = l) idx = [l]"
proof (induction idx)
  case Nil then show ?case by simp
next
  case (Cons a idx)
  show ?case
  proof (cases "a = l")
    case True
    then have "l \<notin> set idx" using Cons.prems(1) by simp
    then have "filter (\<lambda>x. x = l) idx = []" by (auto simp: filter_empty_conv)
    then show ?thesis using True by simp
  next
    case False
    then show ?thesis using Cons by auto
  qed
qed

lemma loc_labels:
  assumes "distinct idx" "set labels \<subseteq> set idx"
  shows "map (\<lambda>p. idx ! p) (concat (map (positions_of idx) labels)) = labels"
  using assms(2)
proof (induction labels)
  case Nil show ?case by simp
next
  case (Cons l labels)
  then have "l \<in> set idx" by simp
  then have "map (\<lambda>p. idx ! p) (positions_of idx l) = [l]"
    by (simp add: labels_at_positions distinct_filter_eq assms(1))
  then show ?case using Cons by simp
qed

lemma loc_index:
  assumes "distinct (index df)" "loc df labels = Inr df'"
  shows "index df' = labels"
proof -
  have sub: "set labels \<subseteq> set (index df)"
    using assms(2) by (auto simp: loc_def list_all_iff split: if_splits)
  then have "df' = \<lparr>index = map (\<lambda>p. index df ! p) (concat (map (positions_of (index df)) labels)),
                    columns = map (\<lambda>(name, c). (name, take_rows (concat (map (positions_of (index df)) labels)) c)) (columns df)\<rparr>"
    using assms(2) by (auto simp: loc_def Let_def list_all_iff split: if_splits)
  then show ?thesis using loc_labels [OF assms(1) sub] by simp
qed

lemma col_length_take_rows: "col_length (take_rows ps c) = length ps"
  by (cases c) simp_all

lemma loc_columns:
  assumes "loc df labels = Inr df'"
  shows "list_all (\<lambda>(n, c). col_length c = length (index df')) (columns df')"
    and "map fst (columns df') = map fst (columns df)"
  using assms
  by (auto simp: loc_def Let_def list_all_iff col_length_take_rows split: if_splits)

lemma loc_succeeds:
  "set labels \<subseteq> set (index df) \<Longrightarrow> \<exists>df'. loc df labels = Inr df'"
  by (auto simp: loc_def Let_def list_all_iff)

lemma is_permutation_distinct:
  assumes "is_permutation perm n"
  shows "distinct perm" and "set perm = {0..<n}"
proof -
  have len: "length perm = n" and sub: "{0..<n} \<subseteq> set perm"
    using assms by (auto simp: is_permutation_def list_all_iff)
  have "card (set perm) \<le> card {0..<n}" using card_length [of perm] len by simp
  then show eq: "set perm = {0..<n}"
    using card_seteq [of "set perm" "{0..<n}"] sub by simp
  then have "card (set perm) = length perm" using len by simp
  then show "distinct perm" by (rule card_distinct)
qed

lemma sample_index:
  assumes "range_index raw" "is_permutation perm (length (index raw))"
  shows "index (sample perm raw) = perm"
proof -
  have "\<forall>p\<in>set perm. p < length (index raw)"
    using is_permutation_distinct(2) [OF assms(2)] by simp
  moreover have "\<And>p. p < length (index raw) \<Longrightarrow> index raw ! p = p"
    using assms(1) unfolding range_index_def by (metis add_0 nth_upt)
  ultimately have "map (\<lambda>p. index raw ! p) perm = perm" by (simp add: map_idI)
  then show ?thesis by (simp add: sample_def)
qed

lemma drop_columns_index: "drop_columns names df = Inr X \<Longrightarrow> index X = index df"
  by (auto simp: drop_columns_def split: if_splits)

lemma target_cleaning_Inr:
  assumes "target_cleaning train = Inr (y, X)"
  obtains vs X0 where "map_of (columns train) target_name = Some (NumCol vs)"
    and "y = clean_target (zip (index train) vs)"
    and "drop_columns [target_name, ''id''] train = Inr X0"
    and "loc X0 (map fst y) = Inr X"
  using assms unfolding target_cleaning_def
  by (auto simp: Let_def split: option.splits column.splits sum.splits)


lemma drop_columns_names:
  "drop_columns names df = Inr X \<Longrightarrow>
   map fst (columns X) = filter (\<lambda>n. n \<notin> set names) (map fst (columns df))"
  by (auto simp: drop_columns_def filter_map comp_def case_prod_unfold split: if_splits)



text \<open>
  Claim C2. A training table of 1000 rows whose target column holds exactly one missing
  value and exactly one infinite value, all others being finite, is cleaned without an
  error, and exactly 998 rows remain, in the target as in the feature table. (The mean
  of a column with an infinite value is not finite, so the missing value is filled with
  a value that step (b) removes with the infinite one.)
\<close>

theorem target_cleaning_998_rows:
  assumes "getitem train target_name = Inr (NumCol vs)"
    and "''id'' \<in> set (map fst (columns train))"
    and "distinct (index train)"
    and "length (index train) = 1000" and "length vs = 1000"
    and "length (filter isna vs) = 1" and "length (filter isinf vs) = 1"
  shows "\<exists>y X. target_cleaning train = Inr (y, X) \<and> length y = 998 \<and> length (index X) = 998"
proof -
  let ?raw = "zip (index train) vs"
  let ?cl = "clean_target ?raw"
  have snd_y0: "map snd ?raw = vs" using assms(4,5) by simp
  have "filter isinf vs \<noteq> []" using assms(7) by auto
  then have "\<exists>v\<in>set vs. isinf v" by (auto simp: filter_empty_conv)
  then have "\<not> isfinite (mean ?raw)" using mean_inf [of ?raw] snd_y0 by simp
  then have "length ?cl = length (filter isfinite vs)"
    unfolding clean_target_filter using fillna_count_not_finite [of "mean ?raw" ?raw] snd_y0 by simp
  then have len: "length ?cl = 998" using fval_partition [of vs] assms(5,6,7) by simp
  have col: "map_of (columns train) target_name = Some (NumCol vs)"
    using assms(1) by (auto simp: getitem_def split: option.splits)
  then have "target_name \<in> set (map fst (columns train))"
    by (metis map_of_eq_None_iff option.distinct(1) set_map)
  then obtain X0 where X0: "drop_columns [target_name, ''id''] train = Inr X0"
    using assms(2) by (auto simp: drop_columns_def)
  have idx: "index X0 = index train" using X0 by (rule drop_columns_index)
  have "set (map fst ?cl) \<subseteq> set (map fst ?raw)" by (rule clean_target_labels)
  also have "\<dots> \<subseteq> set (index train)" using assms(4,5) by simp
  finally have "set (map fst ?cl) \<subseteq> set (index X0)" using idx by simp
  then obtain X where X: "loc X0 (map fst ?cl) = Inr X" using loc_succeeds by blast
  have "index X = map fst ?cl" using X assms(3) idx by (intro loc_index [of X0]) simp_all
  then have "length (index X) = 998" using len by simp
  moreover have "target_cleaning train = Inr (?cl, X)"
    using col X0 X by (simp add: target_cleaning_def Let_def)
  ultimately show ?thesis using len by blast
qed

theorem target_cleaning_998_rows_witness:
  "\<exists>y X. target_cleaning train_1000 = Inr (y, X) \<and> length y = 998 \<and> length (index X) = 998"
proof (rule target_cleaning_998_rows [of train_1000 "NaN # PInf # replicate 998 (Fin 5)"])
  show "getitem train_1000 target_name = Inr (NumCol (NaN # PInf # replicate 998 (Fin 5)))"
    by (simp add: getitem_def train_1000_def target_name_def)
  show "''id'' \<in> set (map fst (columns train_1000))" by (simp add: train_1000_def)
  show "distinct (index train_1000)" by (simp add: train_1000_def)
  show "length (index train_1000) = 1000" by (simp add: train_1000_def)
  show "length (NaN # PInf # replicate 998 (Fin 5)) = 1000" by simp
  show "length (filter isna (NaN # PInf # replicate 998 (Fin 5))) = 1" by simp
  show "length (filter isinf (NaN # PInf # replicate 998 (Fin 5))) = 1" by simp
qed

text \<open>
  Claim C3. For every training table as read from the file (row labels 0 to n - 1) and
  shuffled, when target cleaning returns, the feature table has the row labels of the
  cleaned target, in the same order, hence as many rows; every column of it has that
  many values; and its columns are those of the training table without the target and
  the identifier.
\<close>

theorem features_aligned_with_target:
  assumes "range_index raw" and "is_permutation perm (length (index raw))"
    and "target_cleaning (sample perm raw) = Inr (y, X)"
  shows "index X = map fst y \<and> length (index X) = length y
         \<and> list_all (\<lambda>(name, c). col_length c = length y) (columns X)
         \<and> map fst (columns X)
             = filter (\<lambda>n. n \<notin> {target_name, ''id''}) (map fst (columns (sample perm raw)))"
proof -
  from assms(3) obtain vs X0 where
    X0: "drop_columns [target_name, ''id''] (sample perm raw) = Inr X0"
    and X: "loc X0 (map fst y) = Inr X"
    by (rule target_cleaning_Inr)
  have "index X0 = perm" using drop_columns_index [OF X0] sample_index [OF assms(1,2)] by simp
  then have "distinct (index X0)" using is_permutation_distinct(1) [OF assms(2)] by simp
  then have idx: "index X = map fst y" using X by (rule loc_index)
  moreover have "list_all (\<lambda>(name, c). col_length c = length (index X)) (columns X)"
    using X by (rule loc_columns(1))
  moreover have "map fst (columns X)
      = filter (\<lambda>n. n \<notin> {target_name, ''id''}) (map fst (columns (sample perm raw)))"
    using loc_columns(2) [OF X] drop_columns_names [OF X0] by simp
  ultimately show ?thesis by simp
qed

theorem features_aligned_with_target_witness:
  "index X_example = map fst [(0, Fin 40), (3 :: nat, Fin 60)]
   \<and> length (index X_example) = length [(0, Fin 40), (3 :: nat, Fin 60)]
   \<and> list_all (\<lambda>(name, c). col_length c = length [(0, Fin 40), (3 :: nat, Fin 60)])
        (columns X_example)
   \<and> map fst (columns X_example)
       = filter (\<lambda>n. n \<notin> {target_name, ''id''})
           (map fst (columns (sample [2, 0, 3, 1] raw_example)))"
proof (rule features_aligned_with_target [of raw_example "[2, 0, 3, 1]"])
  show "range_index raw_example" by (simp add: range_index_def raw_example_def upt_rec)
  show "is_permutation [2, 0, 3, 1] (length (index raw_example))"
    by (simp add: is_permutation_def raw_example_def upt_rec)
  show "target_cleaning (sample [2, 0, 3, 1] raw_example)
          = Inr ([(0, Fin 40), (3, Fin 60)], X_example)"
    by (simp add: target_cleaning_def sample_def raw_example_def X_example_def
        target_name_def clean_target_def dropna_def replace_inf_def fillna_def mean_def
        nansum_def drop_columns_def loc_def positions_of_def upt_rec)
qed

section \<open>Properties of the selection, the search and the stacking\<close>

lemma lower_char_a: "lower_char c = CHR ''a'' \<longleftrightarrow> c = CHR ''a'' \<or> c = CHR ''A''"
  by (simp add: lower_char_def)
lemma lower_char_l: "lower_char c = CHR ''l'' \<longleftrightarrow> c = CHR ''l'' \<or> c = CHR ''L''"
  by (simp add: lower_char_def)
lemma lower_all_chars:
  assumes "lower inp = ''all''"
  shows "\<exists>c1 c2 c3. inp = [c1, c2, c3] \<and> lower_char c1 = CHR ''a''
        \<and> lower_char c2 = CHR ''l'' \<and> lower_char c3 = CHR ''l''"
proof -
  from assms have "map lower_char inp = [CHR ''a'', CHR ''l'', CHR ''l'']"
    by (simp only: lower_def)
  then show ?thesis by (auto simp only: map_eq_Cons_conv map_is_Nil_conv)
qed

lemma lower_all:
  "(lower inp = ''all'') =
     (inp \<in> set [''all'', ''alL'', ''aLl'', ''aLL'', ''All'', ''AlL'', ''ALl'', ''ALL''])"
proof
  assume "lower inp = ''all''"
  then obtain c1 c2 c3 where inp: "inp = [c1, c2, c3]"
    and c: "c1 = CHR ''a'' \<or> c1 = CHR ''A''" "c2 = CHR ''l'' \<or> c2 = CHR ''L''"
      "c3 = CHR ''l'' \<or> c3 = CHR ''L''"
    using lower_all_chars [of inp] unfolding lower_char_a lower_char_l by blast
  from c show "inp \<in> set [''all'', ''alL'', ''aLl'', ''aLL'', ''All'', ''AlL'', ''ALl'', ''ALL'']"
    unfolding inp by (elim disjE) simp_all
next
  assume "inp \<in> set [''all'', ''alL'', ''aLl'', ''aLL'', ''All'', ''AlL'', ''ALl'', ''ALL'']"
  then have "inp = ''all'' \<or> inp = ''alL'' \<or> inp = ''aLl'' \<or> inp = ''aLL'' \<or> inp = ''All''
      \<or> inp = ''AlL'' \<or> inp = ''ALl'' \<or> inp = ''ALL''"
    by (simp only: list.set insert_iff empty_iff) blast
  then show "lower inp = ''all''"
    by (elim disjE) (simp_all add: lower_def lower_char_def)
qed

lemma tune_model_base:
  assumes "tune_model L g name r st = (res, st')"
  shows "(res \<noteq> None \<and> base_models st' = base_models st) \<or>
         (res = None \<and> (\<exists>e. base_models st' = base_models st @ [(name, e)]))"
  using assms
  by (auto simp: tune_model_def Let_def print_line_def split: sum.splits prod.splits)

lemma tune_model_console:
  assumes "tune_model L g name r st = (res, st')"
  shows "\<exists>ls. console st' = console st @ model_line name # ls"
  using assms
  by (auto simp: tune_model_def Let_def print_line_def split: sum.splits prod.splits)

lemma tune_model_agree:
  assumes "base_models st = base_models st2" "rng_pos st = rng_pos st2"
  shows "fst (tune_model L g name r st) = fst (tune_model L g name r st2)
       \<and> base_models (snd (tune_model L g name r st)) = base_models (snd (tune_model L g name r st2))
       \<and> rng_pos (snd (tune_model L g name r st)) = rng_pos (snd (tune_model L g name r st2))"
  using assms
  by (auto simp: tune_model_def Let_def print_line_def split: sum.splits prod.splits)

lemma loop_all_invalid:
  "\<forall>t\<in>set toks. map_of models t = None \<Longrightarrow>
   selection_loop L g toks st = (None, st\<lparr>console := console st @ map invalid_line toks\<rparr>)"
  by (induction toks arbitrary: st) (simp_all add: print_line_def)

lemma loop_console_mono:
  "selection_loop L g toks st = (res, st') \<Longrightarrow> set (console st) \<subseteq> set (console st')"
proof (induction toks arbitrary: st)
  case Nil then show ?case by simp
next
  case (Cons t toks)
  show ?case
  proof (cases "map_of models t")
    case None
    then have "selection_loop L g toks (print_line (invalid_line t) st) = (res, st')"
      using Cons.prems by simp
    from Cons.IH [OF this] show ?thesis by (auto simp: print_line_def)
  next
    case (Some nr)
    obtain name r where nr: "nr = (name, r)" by (cases nr)
    obtain res1 st1 where t1: "tune_model L g name r st = (res1, st1)"
      by (cases "tune_model L g name r st")
    have c1: "set (console st) \<subseteq> set (console st1)"
      using tune_model_console [OF t1] by auto
    show ?thesis
    proof (cases res1)
      case None
      then have "selection_loop L g toks st1 = (res, st')"
        using Cons.prems Some nr t1 by simp
      from Cons.IH [OF this] c1 show ?thesis by blast
    next
      case (Some e)
      then have "st' = st1" using Cons.prems \<open>map_of models t = Some nr\<close> nr t1 by simp
      then show ?thesis using c1 by simp
    qed
  qed
qed

lemma loop_reports:
  "selection_loop L g toks st = (None, st') \<Longrightarrow> t \<in> set toks \<Longrightarrow> map_of models t = None
   \<Longrightarrow> invalid_line t \<in> set (console st')"
proof (induction toks arbitrary: st)
  case Nil then show ?case by simp
next
  case (Cons a toks)
  show ?case
  proof (cases "map_of models a")
    case None
    then have run: "selection_loop L g toks (print_line (invalid_line a) st) = (None, st')"
      using Cons.prems(1) by simp
    show ?thesis
    proof (cases "t = a")
      case True
      have "invalid_line a \<in> set (console (print_line (invalid_line a) st))"
        by (simp add: print_line_def)
      then show ?thesis using loop_console_mono [OF run] True by blast
    next
      case False
      then have "t \<in> set toks" using Cons.prems(2) by simp
      then show ?thesis using Cons.IH [OF run _ Cons.prems(3)] by simp
    qed
  next
    case (Some nr)
    obtain name r where nr: "nr = (name, r)" by (cases nr)
    obtain res1 st1 where t1: "tune_model L g name r st = (res1, st1)"
      by (cases "tune_model L g name r st")
    have "res1 = None" using Cons.prems(1) Some nr t1 by (cases res1) simp_all
    then have run: "selection_loop L g toks st1 = (None, st')"
      using Cons.prems(1) Some nr t1 by simp
    have "t \<noteq> a" using Some Cons.prems(3) by auto
    then have "t \<in> set toks" using Cons.prems(2) by simp
    then show ?thesis using Cons.IH [OF run _ Cons.prems(3)] by simp
  qed
qed

lemma loop_skips_invalid:
  assumes "base_models st = base_models st2" "rng_pos st = rng_pos st2"
  shows "fst (selection_loop L g toks st)
           = fst (selection_loop L g (filter (\<lambda>t. map_of models t \<noteq> None) toks) st2)
       \<and> base_models (snd (selection_loop L g toks st))
           = base_models (snd (selection_loop L g (filter (\<lambda>t. map_of models t \<noteq> None) toks) st2))
       \<and> rng_pos (snd (selection_loop L g toks st))
           = rng_pos (snd (selection_loop L g (filter (\<lambda>t. map_of models t \<noteq> None) toks) st2))"
  using assms
proof (induction toks arbitrary: st st2)
  case Nil then show ?case by simp
next
  case (Cons a toks)
  show ?case
  proof (cases "map_of models a")
    case None
    have "base_models (print_line (invalid_line a) st) = base_models st2"
      "rng_pos (print_line (invalid_line a) st) = rng_pos st2"
      using Cons.prems by (simp_all add: print_line_def)
    from Cons.IH [OF this] show ?thesis using None by simp
  next
    case (Some nr)
    obtain name r where nr: "nr = (name, r)" by (cases nr)
    obtain res1 st1 where t1: "tune_model L g name r st = (res1, st1)"
      by (cases "tune_model L g name r st")
    obtain res2 st3 where t2: "tune_model L g name r st2 = (res2, st3)"
      by (cases "tune_model L g name r st2")
    have agree: "res1 = res2" "base_models st1 = base_models st3" "rng_pos st1 = rng_pos st3"
      using tune_model_agree [OF Cons.prems, of L g name r] t1 t2 by simp_all
    show ?thesis
    proof (cases res1)
      case None
      then show ?thesis
        using Cons.IH [OF agree(2,3)] Some nr t1 t2 agree(1) by simp
    next
      case (Some e)
      then show ?thesis
        using \<open>map_of models a = Some nr\<close> nr t1 t2 agree by simp
    qed
  qed
qed

lemma loop_names:
  "selection_loop L g toks st = (None, st') \<Longrightarrow>
   map fst (base_models st')
     = map fst (base_models st) @ List.map_filter (\<lambda>t. map_option fst (map_of models t)) toks"
proof (induction toks arbitrary: st)
  case Nil then show ?case by (simp add: List.map_filter_simps)
next
  case (Cons a toks)
  show ?case
  proof (cases "map_of models a")
    case None
    then have run: "selection_loop L g toks (print_line (invalid_line a) st) = (None, st')"
      using Cons.prems by simp
    from Cons.IH [OF run] show ?thesis using None by (simp add: List.map_filter_simps print_line_def)
  next
    case (Some nr)
    obtain name r where nr: "nr = (name, r)" by (cases nr)
    obtain res1 st1 where t1: "tune_model L g name r st = (res1, st1)"
      by (cases "tune_model L g name r st")
    have r1: "res1 = None" using Cons.prems Some nr t1 by (cases res1) simp_all
    then have run: "selection_loop L g toks st1 = (None, st')"
      using Cons.prems Some nr t1 by simp
    have "map fst (base_models st1) = map fst (base_models st) @ [name]"
      using tune_model_base [OF t1] r1 by auto
    then show ?thesis using Cons.IH [OF run] Some nr by (simp add: List.map_filter_simps)
  qed
qed

lemma valid_keys:
  "(map_of models tok = None) = (tok \<notin> set [''1'', ''2'', ''3'', ''4'', ''5''])"
  by (simp add: models_def)

lemma seeded_search_deterministic:
  "map_sum id fst (RandomizedSearchCV_fit L g pos r grid n (Some seed))
     = map_sum id fst (RandomizedSearchCV_fit L g' pos' r grid n (Some seed))"
  by (simp add: RandomizedSearchCV_fit_def Let_def bind_err_def
      split: sum.splits option.splits prod.splits)

text \<open>
  Claim C5. A token that is not a key of the catalog is reported on the console and
  skipped, and the loop goes on with the tokens that follow: the outcome of the loop, the
  models it retains and the position of the generator are those of the loop over the
  valid tokens alone, so an invalid token ends nothing by itself; and when the loop
  returns, the console holds the report of every invalid token.
\<close>

theorem invalid_index_skipped:
  "(map_of models tok = None \<longrightarrow>
      selection_loop L g (tok # rest) st
        = selection_loop L g rest (print_line (invalid_line tok) st))
   \<and> fst (selection_loop L g toks st)
        = fst (selection_loop L g (filter (\<lambda>t. map_of models t \<noteq> None) toks) st)
   \<and> base_models (snd (selection_loop L g toks st))
        = base_models (snd (selection_loop L g (filter (\<lambda>t. map_of models t \<noteq> None) toks) st))
   \<and> (\<forall>t\<in>set toks. fst (selection_loop L g toks st) = None \<and> map_of models t = None
        \<longrightarrow> invalid_line t \<in> set (console (snd (selection_loop L g toks st))))"
proof -
  have "invalid_line t \<in> set (console (snd (selection_loop L g toks st)))"
    if "t \<in> set toks" "fst (selection_loop L g toks st) = None" "map_of models t = None" for t
  proof -
    have "selection_loop L g toks st = (None, snd (selection_loop L g toks st))"
      using that(2) by (metis prod.collapse)
    then show ?thesis using that(1,3) by (rule loop_reports)
  qed
  then show ?thesis
    using loop_skips_invalid [of st st L g toks] by simp
qed

theorem invalid_index_skipped_witness:
  "selection_loop demo_library (\<lambda>i. 0) [''9'', ''2''] empty_state
     = selection_loop demo_library (\<lambda>i. 0) [''2''] (print_line (invalid_line ''9'') empty_state)
   \<and> invalid_line ''9''
       \<in> set (console (snd (selection_loop demo_library (\<lambda>i. 0) [''9'', ''2''] empty_state)))"
proof -
  have h1: "map_of models ''9'' = None" by (simp add: models_def)
  have h2: "fst (selection_loop demo_library (\<lambda>i. 0) [''9'', ''2''] empty_state) = None"
    by code_simp
  have h3: "''9'' \<in> set [''9'', ''2'']" by simp
  show ?thesis
    using invalid_index_skipped [of "''9''" demo_library "\<lambda>i. 0" "[''2'']" empty_state
        "[''9'', ''2'']"] h1 h2 h3
    by blast
qed

text \<open>
  Claim C6. When every token of the selection is invalid, the loop retains no base
  model, the fit of the stacked ensemble raises on its empty list of base learners, the
  run ends with that exception after the reports of the invalid tokens, and no
  submission is written.
\<close>

theorem all_invalid_no_submission:
  assumes "\<forall>t\<in>set (selected_models inp). map_of models t = None"
  shows "base_models (snd (selection_loop L g (selected_models inp) menu_state)) = []
       \<and> StackingRegressor_fit L [] = Inl ValueError
       \<and> raised (model_stage L g test inp) = Some ValueError
       \<and> submission_file (model_stage L g test inp) = None
       \<and> out_lines (model_stage L g test inp)
           = menu_lines @ map invalid_line (selected_models inp)"
proof -
  have "selection_loop L g (selected_models inp) menu_state
      = (None, \<lparr>console = menu_lines @ map invalid_line (selected_models inp),
                base_models = [], rng_pos = 0\<rparr>)"
    using loop_all_invalid [OF assms, of L g menu_state] by (simp add: menu_state_def)
  then show ?thesis
    by (simp add: model_stage_def stacking_stage_def StackingRegressor_fit_def failed_def)
qed

theorem all_invalid_no_submission_witness:
  "raised (model_stage demo_library (\<lambda>i. 0) test_example ''9, x'') = Some ValueError
   \<and> submission_file (model_stage demo_library (\<lambda>i. 0) test_example ''9, x'') = None"
proof -
  have "selected_models ''9, x'' = [''9'', '' x'']"
    by (simp add: selected_models_def lower_def lower_char_def)
  then have h: "\<forall>t\<in>set (selected_models ''9, x''). map_of models t = None"
    by (simp add: models_def)
  show ?thesis
    using all_invalid_no_submission [OF h, of demo_library "\<lambda>i. 0" test_example] by simp
qed

text \<open>
  Claim C8. The search space of each family of the catalog: estimator count
  100, 200, 300 and maximal depth 3, 5, 7 by default (the random forest); the two
  gradient-boosted families XGBoost and Gradient Boosting add the learning rate
  0.01, 0.1, 0.2; the support-vector family has C in 0.1, 1, 10, the kernels rbf, linear,
  poly and gamma in scale, auto, 0.1, 1, 10 instead; CatBoost has the learning rate
  0.01, 0.1, 0.2, the depth 3, 5, 7 and the L2 leaf regularisation 1, 3, 5 instead.
\<close>

theorem search_spaces:
  "map (\<lambda>(key, (name, r)). (name, param_distributions name)) models =
  [(''XGBoost'',
      [(''regressor__n_estimators'', [PInt 100, PInt 200, PInt 300]),
       (''regressor__max_depth'', [PInt 3, PInt 5, PInt 7]),
       (''regressor__learning_rate'', [PFloat (1 / 100), PFloat (1 / 10), PFloat (2 / 10)])]),
   (''Random Forest'',
      [(''regressor__n_estimators'', [PInt 100, PInt 200, PInt 300]),
       (''regressor__max_depth'', [PInt 3, PInt 5, PInt 7])]),
   (''Gradient Boosting'',
      [(''regressor__n_estimators'', [PInt 100, PInt 200, PInt 300]),
       (''regressor__max_depth'', [PInt 3, PInt 5, PInt 7]),
       (''regressor__learning_rate'', [PFloat (1 / 100), PFloat (1 / 10), PFloat (2 / 10)])]),
   (''SVR'',
      [(''regressor__C'', [PFloat (1 / 10), PInt 1, PInt 10]),
       (''regressor__kernel'', [PStr ''rbf'', PStr ''linear'', PStr ''poly'']),
       (''regressor__gamma'', [PStr ''scale'', PStr ''auto'', PFloat (1 / 10), PInt 1, PInt 10])]),
   (''CatBoost'',
      [(''regressor__learning_rate'', [PFloat (1 / 100), PFloat (1 / 10), PFloat (2 / 10)]),
       (''regressor__depth'', [PInt 3, PInt 5, PInt 7]),
       (''regressor__l2_leaf_reg'', [PInt 1, PInt 3, PInt 5])])]"
  by (simp add: models_def param_distributions_def assign_def)

text \<open>
  Claim C9. The input selects the whole catalog exactly when it is \<open>all\<close> in some
  mix of upper and lower case; any other input is split at the commas, with nothing
  trimmed; a token is valid exactly when it is one of the strings 1 to 5. So the input
  \<open>1, 2\<close> has the tokens \<open>1\<close> and \<open> 2\<close>, and the token \<open> 2\<close>, with its leading
  space, is reported as invalid and skipped: it does not select the second family.
\<close>

theorem selection_matching:
  "(lower inp = ''all'')
     = (inp \<in> set [''all'', ''alL'', ''aLl'', ''aLL'', ''All'', ''AlL'', ''ALl'', ''ALL''])
   \<and> selected_models inp
       = (if lower inp = ''all'' then [''1'', ''2'', ''3'', ''4'', ''5'']
          else split CHR '','' inp)
   \<and> (map_of models tok = None) = (tok \<notin> set [''1'', ''2'', ''3'', ''4'', ''5''])
   \<and> selected_models ''1, 2'' = [''1'', '' 2'']
   \<and> selection_loop L g ('' 2'' # rest) st
       = selection_loop L g rest (print_line (invalid_line '' 2'') st)"
proof -
  have "selected_models ''1, 2'' = [''1'', '' 2'']"
    by (simp add: selected_models_def lower_def lower_char_def)
  moreover have "map_of models '' 2'' = None" by (simp add: models_def)
  moreover have "map fst models = [''1'', ''2'', ''3'', ''4'', ''5'']" by (simp add: models_def)
  ultimately show ?thesis
    using lower_all [of inp] valid_keys [of tok] by (simp add: selected_models_def)
qed

text \<open>
  Claim C10. When the loop returns, the names of the retained base models are the
  family names of the valid tokens, in the order of the selection and with every
  repetition kept: a valid index entered twice is tuned twice and gives two entries of
  the same name. The stacked ensemble is built on exactly this list.
\<close>

theorem selection_order_no_dedup:
  "(selection_loop L g toks st = (None, st') \<longrightarrow>
      map fst (base_models st')
        = map fst (base_models st)
            @ List.map_filter (\<lambda>t. map_option fst (map_of models t)) toks)
   \<and> (selection_loop L g (selected_models inp) menu_state = (None, st2) \<longrightarrow>
        model_stage L g test inp = stacking_stage L test st2
        \<and> stacking_stage L test st2
            = (case StackingRegressor_fit L (base_models st2) of
                 Inl e \<Rightarrow> failed (console st2) e
               | Inr s \<Rightarrow> stacking_stage L test st2))"
  using loop_names [of L g toks st st']
  by (auto simp: model_stage_def stacking_stage_def failed_def split: sum.splits)

theorem selection_order_no_dedup_witness:
  "map fst (base_models (snd (selection_loop demo_library (\<lambda>i. 0) [''2'', ''2''] empty_state)))
     = [''Random Forest'', ''Random Forest'']
   \<and> model_stage demo_library (\<lambda>i. 0) test_example ''2,2''
       = stacking_stage demo_library test_example
           (snd (selection_loop demo_library (\<lambda>i. 0) (selected_models ''2,2'') menu_state))"
proof -
  let ?r1 = "selection_loop demo_library (\<lambda>i. 0) [''2'', ''2''] empty_state"
  let ?r2 = "selection_loop demo_library (\<lambda>i. 0) (selected_models ''2,2'') menu_state"
  have "fst ?r1 = None" by code_simp
  then have h1: "?r1 = (None, snd ?r1)" by (metis prod.collapse)
  have "fst ?r2 = None" by code_simp
  then have h2: "?r2 = (None, snd ?r2)" by (metis prod.collapse)
  have e: "map fst (base_models (empty_state :: params loop_state))
             @ List.map_filter (\<lambda>t. map_option fst (map_of models t)) [''2'', ''2'']
           = [''Random Forest'', ''Random Forest'']"
    by code_simp
  show ?thesis
    using selection_order_no_dedup [of demo_library "\<lambda>i. 0" "[''2'', ''2'']" empty_state
        "snd ?r1" "''2,2''" "snd ?r2" test_example] h1 h2 e
    by simp
qed

text \<open>
  Claim C4 does not hold of the script: the search is constructed without
  \<open>random_state\<close>, so its sample of the grid is drawn from the global generator, which
  nothing seeds. Two runs on the same inputs and the same selection whose generators
  start differently can report different best parameters: here the selection \<open>1\<close>,
  a library whose scores grow with the learning rate, and the streams that are
  constantly 0 and constantly 26.
\<close>

theorem unseeded_search_differs:
  "map_sum id (\<lambda>(res, pos). best_params res)
     (RandomizedSearchCV_fit demo_library (\<lambda>i. 0) 0 (XGBRegressor 42)
        (param_distributions ''XGBoost'') 10 None)
     = Inr [(''regressor__learning_rate'', PFloat (1 / 10)),
            (''regressor__max_depth'', PInt 3), (''regressor__n_estimators'', PInt 100)]
   \<and> map_sum id (\<lambda>(res, pos). best_params res)
       (RandomizedSearchCV_fit demo_library (\<lambda>i. 26) 0 (XGBRegressor 42)
          (param_distributions ''XGBoost'') 10 None)
     = Inr [(''regressor__learning_rate'', PFloat (1 / 5)),
            (''regressor__max_depth'', PInt 7), (''regressor__n_estimators'', PInt 300)]
   \<and> out_lines (model_stage demo_library (\<lambda>i. 0) test_example ''1'')
       \<noteq> out_lines (model_stage demo_library (\<lambda>i. 26) test_example ''1'')"
  by code_simp

end
